theory Spec2Isabelle
  imports Main
begin

section \<open>POSIX paths: the functions of node:path the module calls\<close>

text \<open>
  The module imports \<open>basename\<close>, \<open>resolve\<close> (as \<open>pathResolve\<close>), \<open>relative\<close>,
  \<open>dirname\<close> and \<open>join\<close> from node:path. They are modelled on strings, in their POSIX
  form (separator \<open>/\<close>), the way Node computes them.
\<close>

abbreviation slash :: char where
  "slash \<equiv> CHR ''/''"

text \<open>Splitting at a separator, as \<open>String.prototype.split\<close> does: \<open>n\<close> separators give
  \<open>n + 1\<close> pieces, empty pieces included.\<close>

fun splitOn :: "char \<Rightarrow> string \<Rightarrow> string list" where
  "splitOn c [] = [[]]"
| "splitOn c (x # xs) =
     (if x = c then [] # splitOn c xs
      else (case splitOn c xs of [] \<Rightarrow> [[x]] | s # ss \<Rightarrow> (x # s) # ss))"

definition splitPath :: "string \<Rightarrow> string list" where
  "splitPath p = splitOn slash p"

fun joinPath :: "string list \<Rightarrow> string" where
  "joinPath [] = []"
| "joinPath [s] = s"
| "joinPath (s # t # ss) = s @ slash # joinPath (t # ss)"

definition isAbsolute :: "string \<Rightarrow> bool" where
  "isAbsolute p = (p \<noteq> [] \<and> hd p = slash)"

text \<open>
  Node's \<open>normalizeString\<close>, on the segments of a path: empty segments and \<open>.\<close> are
  dropped, \<open>..\<close> removes the segment before it; where there is none (or it is \<open>..\<close>
  itself) \<open>..\<close> is kept when the path may climb above its root and dropped otherwise.
  The second argument is the stack of segments kept so far, last one first.
\<close>

fun normalizeString :: "bool \<Rightarrow> string list \<Rightarrow> string list \<Rightarrow> string list" where
  "normalizeString allowAboveRoot acc [] = rev acc"
| "normalizeString allowAboveRoot acc (s # ss) =
     (if s = [] \<or> s = ''.'' then normalizeString allowAboveRoot acc ss
      else if s = ''..'' then
        (if acc \<noteq> [] \<and> hd acc \<noteq> ''..'' then normalizeString allowAboveRoot (tl acc) ss
         else if allowAboveRoot then normalizeString allowAboveRoot (''..'' # acc) ss
         else normalizeString allowAboveRoot acc ss)
      else normalizeString allowAboveRoot (s # acc) ss)"

text \<open>\<open>path.normalize\<close>: a leading and a trailing separator survive, an empty result is
  \<open>.\<close>.\<close>

definition normalizePath :: "string \<Rightarrow> string" where
  "normalizePath path =
     (if path = [] then ''.''
      else
        let isAbs = (hd path = slash);
            trailingSeparator = (last path = slash);
            body = joinPath (normalizeString (\<not> isAbs) [] (splitPath path))
        in if body = [] then (if isAbs then ''/'' else if trailingSeparator then ''./'' else ''.'')
           else (if isAbs then [slash] else []) @ body @ (if trailingSeparator then [slash] else []))"

text \<open>\<open>path.join\<close>: the non-empty arguments, joined by the separator and normalised.\<close>

definition join :: "string list \<Rightarrow> string" where
  "join args =
     (let parts = filter (\<lambda>a. a \<noteq> []) args
      in if parts = [] then ''.'' else normalizePath (joinPath parts))"

text \<open>
  \<open>path.resolve\<close> reads its arguments from the right until one is absolute, falling back
  on the working directory of the process; \<open>resolvedParts\<close> is the part of
  \<open>cwd # args\<close> that counts.
\<close>

fun resolvedParts :: "string list \<Rightarrow> string list" where
  "resolvedParts [] = []"
| "resolvedParts (a # as) =
     (if list_ex isAbsolute as then resolvedParts as else a # as)"

definition resolveSegments :: "string \<Rightarrow> string list \<Rightarrow> string list" where
  "resolveSegments workdir args =
     (let parts = resolvedParts (workdir # args)
      in normalizeString (\<not> isAbsolute (hd parts)) [] (concat (map splitPath parts)))"

definition pathResolve :: "string \<Rightarrow> string list \<Rightarrow> string" where
  "pathResolve workdir args =
     (let segs = resolveSegments workdir args
      in if isAbsolute (hd (resolvedParts (workdir # args))) then slash # joinPath segs
         else if segs = [] then ''.'' else joinPath segs)"

text \<open>\<open>path.relative\<close>: both paths are resolved, their common leading segments are
  dropped, and each segment left of \<open>from\<close> becomes \<open>..\<close>.\<close>

fun stripCommon :: "'a list \<Rightarrow> 'a list \<Rightarrow> 'a list \<times> 'a list" where
  "stripCommon (x # xs) (y # ys) = (if x = y then stripCommon xs ys else (x # xs, y # ys))"
| "stripCommon xs ys = (xs, ys)"

definition relative :: "string \<Rightarrow> string \<Rightarrow> string \<Rightarrow> string" where
  "relative workdir from to =
     (case stripCommon (resolveSegments workdir [from]) (resolveSegments workdir [to]) of
        (up, down) \<Rightarrow> joinPath (replicate (length up) ''..'' @ down))"

text \<open>
  \<open>path.dirname\<close>: trailing separators are skipped, then everything before the last
  separator is returned (the first character is never taken for that separator).
\<close>

definition stripTrailingSlashes :: "string \<Rightarrow> string" where
  "stripTrailingSlashes s = rev (dropWhile (\<lambda>c. c = slash) (rev s))"

definition dirname :: "string \<Rightarrow> string" where
  "dirname path =
     (if path = [] then ''.''
      else
        let hasRoot = (hd path = slash);
            body = stripTrailingSlashes (tl path)
        in if slash \<notin> set body then (if hasRoot then ''/'' else ''.'')
           else
             let front = rev (tl (dropWhile (\<lambda>c. c \<noteq> slash) (rev body)))
             in if hasRoot \<and> front = [] then ''//'' else hd path # front)"

text \<open>
  \<open>path.basename\<close> with a suffix: the last component of the path, without the suffix
  when the component ends with it and is longer than it. A path equal to the suffix
  gives the empty string; a component that is only the tail of the suffix is returned
  together with the separators that follow it.
\<close>

definition endsWith :: "string \<Rightarrow> string \<Rightarrow> bool" where
  "endsWith suffix s = (length suffix \<le> length s \<and> drop (length s - length suffix) s = suffix)"

definition lastComponent :: "string \<Rightarrow> string" where
  "lastComponent path = rev (takeWhile (\<lambda>c. c \<noteq> slash) (rev (stripTrailingSlashes path)))"

definition basename :: "string \<Rightarrow> string \<Rightarrow> string" where
  "basename path suffix =
     (if suffix \<noteq> [] \<and> length suffix \<le> length path then
        (if suffix = path then []
         else
           let comp = lastComponent path
           in if endsWith suffix comp then
                (if comp = suffix then comp else take (length comp - length suffix) comp)
              else if endsWith comp suffix then comp @ takeWhile (\<lambda>c. c = slash) (rev path)
              else comp)
      else lastComponent path)"

text \<open>\<open>.replace(/\//g, "_")\<close>: every separator becomes an underscore.\<close>

definition replaceSlashes :: "string \<Rightarrow> string" where
  "replaceSlashes s = map (\<lambda>c. if c = slash then CHR ''_'' else c) s"

section \<open>Globbing (node:fs globSync)\<close>

text \<open>
  The file tree is given as the list of the paths of its entries, relative to the working
  directory, in the order the traversal visits them. \<open>globSync\<close> keeps the entries the
  pattern matches. Of the pattern language, the parts the module's two patterns use are
  modelled: a literal name, \<open>*\<close> followed by a literal suffix, and \<open>**\<close>. As in
  minimatch without its \<open>dot\<close> option, neither \<open>*\<close> nor \<open>**\<close> matches a name that
  begins with a dot.
\<close>

datatype glob_part = Literal string | StarSuffix string | GlobStar

definition parsePart :: "string \<Rightarrow> glob_part" where
  "parsePart s =
     (if s = ''**'' then GlobStar
      else if s \<noteq> [] \<and> hd s = CHR ''*'' then StarSuffix (tl s)
      else Literal s)"

definition hidden :: "string \<Rightarrow> bool" where
  "hidden name = (name \<noteq> [] \<and> hd name = CHR ''.'')"

fun partMatch :: "glob_part \<Rightarrow> string \<Rightarrow> bool" where
  "partMatch (Literal s) name = (name = s)"
| "partMatch (StarSuffix ext) name = (name \<noteq> [] \<and> \<not> hidden name \<and> endsWith ext name)"
| "partMatch GlobStar name = (name \<noteq> [] \<and> \<not> hidden name)"

fun globMatch :: "glob_part list \<Rightarrow> string list \<Rightarrow> bool" where
  "globMatch [] names = (names = [])"
| "globMatch (GlobStar # ps) [] = globMatch ps []"
| "globMatch (GlobStar # ps) (n # ns) =
     (globMatch ps (n # ns) \<or> (partMatch GlobStar n \<and> globMatch (GlobStar # ps) ns))"
| "globMatch (p # ps) [] = False"
| "globMatch (p # ps) (n # ns) = (partMatch p n \<and> globMatch ps ns)"

definition globSync :: "string \<Rightarrow> string list \<Rightarrow> string list" where
  "globSync pattern entries =
     filter (\<lambda>p. globMatch (map parsePart (splitPath pattern)) (splitPath p)) entries"

section \<open>Parameter discovery\<close>

text \<open>
  The process the module runs in: its working directory and the file tree seen from
  there. The module reads \<open>cwd()\<close> once, when it is loaded, into its constant
  \<open>__dirname\<close>; \<open>globSync\<close> and \<open>relative\<close> read the process when they are called.
\<close>

record process =
  cwd :: string
  tree :: "string list"

record module_constants =
  dirname_const :: string

definition loadModule :: "process \<Rightarrow> module_constants" where
  "loadModule pr = \<lparr> dirname_const = cwd pr \<rparr>"

record htmlPage =
  template :: string
  filename :: string
  chunks :: "string list"

record Parameters =
  entry :: "string \<rightharpoonup> string"
  htmlPages :: "htmlPage list"
  aliases :: "string \<rightharpoonup> string"

definition scriptExtension :: string where
  "scriptExtension = ''.ts''"

definition documentExtension :: string where
  "documentExtension = ''.html''"

text \<open>
  \<open>entry[key] = value\<close> on an object created by \<open>{}\<close>: the key becomes an own property,
  replacing an earlier value. The one key that does not is \<open>__proto__\<close>: the assignment
  reaches the accessor of \<open>Object.prototype\<close>, which ignores a string.
\<close>

definition assign :: "(string \<rightharpoonup> string) \<Rightarrow> string \<Rightarrow> string \<Rightarrow> (string \<rightharpoonup> string)" where
  "assign obj key v = (if key = ''__proto__'' then obj else obj(key \<mapsto> v))"

text \<open>The first loop of \<open>generateParameters\<close>, over the scripts found.\<close>

fun collectEntries :: "(string \<rightharpoonup> string) \<Rightarrow> string list \<Rightarrow> (string \<rightharpoonup> string)" where
  "collectEntries obj [] = obj"
| "collectEntries obj (scriptFilePath # rest) =
     collectEntries (assign obj (basename scriptFilePath scriptExtension) (''./'' @ scriptFilePath)) rest"

text \<open>The body of the second loop: the page descriptor of one document.\<close>

definition pageOf :: "process \<Rightarrow> string \<Rightarrow> htmlPage" where
  "pageOf pr documentFilePath =
     (let relativePath = relative (cwd pr) ''src'' documentFilePath
      in \<lparr> template = documentFilePath,
           filename = relativePath,
           chunks = [replaceSlashes
                       (join [dirname relativePath, basename documentFilePath documentExtension])] \<rparr>)"

definition generateParameters :: "module_constants \<Rightarrow> process \<Rightarrow> Parameters" where
  "generateParameters m pr =
     \<lparr> entry = collectEntries Map.empty (globSync (''src/scripts/*'' @ scriptExtension) (tree pr)),
       htmlPages = map (pageOf pr) (globSync (''src/**/*'' @ documentExtension) (tree pr)),
       aliases = [''lit'' \<mapsto> ''lit'',
                  ''litDecorators'' \<mapsto> ''lit/decorators.js'',
                  ''altshiftBox'' \<mapsto>
                     pathResolve (cwd pr)
                       [dirname_const m, ''node_modules/@altshiftab/web_components/dist/box.js''],
                  ''altshiftSwitch'' \<mapsto>
                     pathResolve (cwd pr)
                       [dirname_const m, ''node_modules/@altshiftab/web_components/dist/switch.js'']] \<rparr>"

section \<open>Configuration assembly\<close>

abbreviation backslash :: char where
  "backslash \<equiv> CHR 0x5C"

text \<open>A regular expression literal: its source and its flags.\<close>

datatype RegExp = RegExp string string

text \<open>
  The values a plugin list holds. The first six constructors are the instances
  \<open>makeConfigWithParameters\<close> creates, with their constructor arguments; \<open>Other\<close> is
  any other value of the source's type \<open>WebpackPlugin\<close> (a falsy value, a function, an
  instance of another class), as a caller may pass.
\<close>

datatype 'a WebpackPlugin =
    ProvidePlugin "(string \<times> string) list"
  | LimitChunkCountPlugin nat
  | RemoveEmptyScriptsPlugin
  | MiniCssExtractPlugin string
  | HtmlWebpackPlugin htmlPage
  | SubresourceIntegrityPlugin
  | Other 'a

text \<open>The minimizers: Terser with \<open>compress\<close>, the CSS minimizer, and the image
  minimizer (test, implementation, \<open>multipass\<close>, and the svgo plugins with their
  overrides).\<close>

datatype minimizer =
    TerserPlugin bool
  | CssMinimizerPlugin
  | ImageMinimizerPlugin RegExp string bool "(string \<times> (string \<times> bool) list) list"

record output_options =
  output_filename :: string
  output_path :: string
  output_clean :: bool
  output_crossOriginLoading :: string

record optimization_options =
  minimize :: bool
  minimizer :: "minimizer list"
  splitChunks_chunks :: string

record resolve_options =
  resolve_extensions :: "string list"
  resolve_alias :: "string \<rightharpoonup> string"

text \<open>
  The filter of the html-loader source for \<open>link\<close> elements:
  \<open>attributes.find(a => a.name === "rel")?.value || ""\<close> tested against
  \<open>/^(icon|mask-icon|apple-touch-icon)$/\<close>. An attribute without a value has the
  empty string here.
\<close>

record html_attribute =
  attr_name :: string
  attr_value :: string

definition linkFilter :: "string \<Rightarrow> string \<Rightarrow> html_attribute list \<Rightarrow> bool" where
  "linkFilter tag attribute attributes =
     (let rel = (case find (\<lambda>a. attr_name a = ''rel'') attributes of
                   None \<Rightarrow> []
                 | Some a \<Rightarrow> attr_value a)
      in rel = ''icon'' \<or> rel = ''mask-icon'' \<or> rel = ''apple-touch-icon'')"

datatype html_source =
    DefaultSources
  | Source string string string "string \<Rightarrow> string \<Rightarrow> html_attribute list \<Rightarrow> bool"

record compilerOptions =
  co_module :: string
  co_moduleResolution :: string
  co_target :: string
  co_esModuleInterop :: bool
  co_strict :: bool
  co_outDir :: string
  co_experimentalDecorators :: bool
  co_useDefineForClassFields :: bool

datatype loader_options =
    NoOptions
  | HtmlLoaderOptions "html_source list"
  | TsLoaderOptions compilerOptions bool

record use_item =
  loader :: string
  options :: loader_options

text \<open>The three shapes of rule in the rule table: \<open>{test, exclude?, use}\<close>,
  \<open>{test, type, generator: {filename}}\<close> and \<open>{test, loader, options}\<close>.\<close>

datatype module_rule =
    UseRule RegExp "RegExp option" "use_item list"
  | AssetRule RegExp string string
  | LoaderRule RegExp string loader_options


record 'a Configuration =
  mode :: string
  config_entry :: "string \<rightharpoonup> string"
  config_output :: output_options
  devtool :: string
  optimization :: optimization_options
  resolve :: resolve_options
  plugins :: "'a WebpackPlugin list"
  module_rules :: "module_rule list"

definition makeConfigWithParameters ::
    "module_constants \<Rightarrow> process \<Rightarrow> Parameters \<Rightarrow> 'a WebpackPlugin list \<Rightarrow> 'a Configuration" where
  "makeConfigWithParameters m pr parameters extraPlugins =
     \<lparr> mode = ''production'',
       config_entry = entry parameters,
       config_output =
         \<lparr> output_filename = ''scripts/[name]-[contenthash].js'',
           output_path = pathResolve (cwd pr) [dirname_const m, ''dist''],
           output_clean = True,
           output_crossOriginLoading = ''anonymous'' \<rparr>,
       devtool = ''source-map'',
       optimization =
         \<lparr> minimize = True,
           minimizer =
             [TerserPlugin True,
              CssMinimizerPlugin,
              ImageMinimizerPlugin (RegExp (backslash # ''.svg$'') ''i'')
                ''ImageMinimizerPlugin.svgoMinify'' True
                [(''preset-default'', [(''removeViewBox'', False)])]],
           splitChunks_chunks = ''all'' \<rparr>,
       resolve = \<lparr> resolve_extensions = [''.ts'', ''.js''], resolve_alias = aliases parameters \<rparr>,
       plugins =
         extraPlugins @
         [ProvidePlugin
            [(''lit'', ''lit''),
             (''litDecorators'', ''lit/decorators.js''),
             (''altshiftBox'', ''@altshiftab/web_components/box''),
             (''altshiftSwitch'', ''@altshiftab/web_components/switch'')],
          LimitChunkCountPlugin 1,
          RemoveEmptyScriptsPlugin,
          MiniCssExtractPlugin ''styles/[name]-[contenthash].css''] @
         map HtmlWebpackPlugin (htmlPages parameters) @
         [SubresourceIntegrityPlugin],
       module_rules =
         [UseRule (RegExp (backslash # ''.css$'') []) None
            [\<lparr> loader = ''MiniCssExtractPlugin.loader'', options = NoOptions \<rparr>,
             \<lparr> loader = ''css-loader'', options = NoOptions \<rparr>],
          AssetRule (RegExp (backslash # ''.(woff2?|eot|ttf|otf)$'') ''i'')
            ''asset/resource'' ''fonts/[name].[contenthash][ext]'',
          AssetRule (RegExp (backslash # ''.(png|svg|jpg|jpeg|gif|avif)$'') [])
            ''asset/resource'' ''images/[name].[contenthash][ext]'',
          LoaderRule (RegExp (backslash # ''.html$'') []) ''html-loader''
            (HtmlLoaderOptions [DefaultSources, Source ''link'' ''href'' ''src'' linkFilter]),
          UseRule (RegExp (backslash # ''.ts$'') []) None
            [\<lparr> loader = ''@altshiftab/minify_lit'', options = NoOptions \<rparr>],
          UseRule (RegExp (backslash # ''.ts$'') []) (Some (RegExp ''node_modules'' []))
            [\<lparr> loader = ''ts-loader'',
               options =
                 TsLoaderOptions
                   \<lparr> co_module = ''ESNext'',
                     co_moduleResolution = ''Bundler'',
                     co_target = ''ESNext'',
                     co_esModuleInterop = True,
                     co_strict = True,
                     co_outDir = ''./dist'',
                     co_experimentalDecorators = True,
                     co_useDefineForClassFields = False \<rparr>
                   True \<rparr>]] \<rparr>"

definition makeConfig :: "module_constants \<Rightarrow> process \<Rightarrow> 'a WebpackPlugin list \<Rightarrow> 'a Configuration" where
  "makeConfig m pr extraPlugins = makeConfigWithParameters m pr (generateParameters m pr) extraPlugins"

section \<open>The classification of files in words\<close>

text \<open>
  The discovery policy, stated on the path of a file instead of through a glob pattern:
  a script lies directly in \<open>src/scripts\<close> and its name ends with \<open>.ts\<close>; a
  document lies under \<open>src\<close> at any depth and its name ends with \<open>.html\<close>. A
  name is visible when it is not empty and does not begin with a dot; the file's name,
  and for a document every directory below \<open>src\<close> on its path, must be visible.
  These predicates are compared with \<open>globSync\<close> below.
\<close>

definition fileName :: "string \<Rightarrow> string" where
  "fileName p = last (splitPath p)"

definition directoryOf :: "string \<Rightarrow> string list" where
  "directoryOf p = butlast (splitPath p)"

definition visible :: "string \<Rightarrow> bool" where
  "visible name = (name \<noteq> [] \<and> \<not> hidden name)"

definition spec_scriptFile :: "string \<Rightarrow> bool" where
  "spec_scriptFile p =
     (directoryOf p = [''src'', ''scripts''] \<and> visible (fileName p) \<and> endsWith ''.ts'' (fileName p))"

definition spec_documentFile :: "string \<Rightarrow> bool" where
  "spec_documentFile p =
     (take 1 (directoryOf p) = [''src''] \<and> list_all visible (tl (directoryOf p)) \<and>
      visible (fileName p) \<and> endsWith ''.html'' (fileName p))"

text \<open>
  The document files of the tree counted by extension and location alone: a name ending
  with \<open>.html\<close>, anywhere below \<open>src\<close>.
\<close>

definition spec_htmlBelowSrc :: "string \<Rightarrow> bool" where
  "spec_htmlBelowSrc p = (take 1 (directoryOf p) = [''src''] \<and> endsWith ''.html'' (fileName p))"

text \<open>
  The part of the file tree below \<open>src\<close>: the entries whose first path segment is
  \<open>src\<close>.
\<close>

definition sourceTree :: "process \<Rightarrow> string list" where
  "sourceTree pr = filter (\<lambda>p. hd (splitPath p) = ''src'') (tree pr)"

section \<open>Example inputs\<close>

text \<open>
  A project checked out in \<open>/home/dev/site\<close>; a second view of it that differs only
  outside \<open>src\<close>; a project without scripts and documents; and a process whose working
  directory is the parent directory \<open>/home/dev\<close>.
\<close>

definition exampleProcess :: process where
  "exampleProcess =
     \<lparr> cwd = ''/home/dev/site'',
       tree = [''package.json'', ''src/index.html'', ''src/pages/about.html'',
               ''src/scripts/main.ts'', ''src/scripts/admin/panel.ts'', ''src/site.css''] \<rparr>"

definition otherProcess :: process where
  "otherProcess =
     \<lparr> cwd = ''/home/dev/site'',
       tree = [''src/index.html'', ''README.md'', ''src/pages/about.html'',
               ''src/scripts/main.ts'', ''src/scripts/admin/panel.ts'', ''src/site.css'',
               ''dist/index.html''] \<rparr>"

definition emptyProcess :: process where
  "emptyProcess = \<lparr> cwd = ''/home/dev/site'', tree = [''package.json'', ''src/site.css''] \<rparr>"

definition launchProcess :: process where
  "launchProcess = \<lparr> cwd = ''/home/dev'', tree = [''site/package.json''] \<rparr>"

text \<open>A project with a document whose name begins with a dot.\<close>

definition hiddenProcess :: process where
  "hiddenProcess =
     \<lparr> cwd = ''/home/dev/site'',
       tree = [''src/index.html'', ''src/.hidden.html'', ''src/scripts/main.ts''] \<rparr>"

definition exampleParameters :: Parameters where
  "exampleParameters =
     \<lparr> entry = [''main'' \<mapsto> ''./src/scripts/main.ts''],
       htmlPages = [\<lparr> template = ''src/index.html'', filename = ''index.html'', chunks = [''index''] \<rparr>],
       aliases = [''lit'' \<mapsto> ''lit''] \<rparr>"


definition exampleExtraPlugins :: "string WebpackPlugin list" where
  "exampleExtraPlugins = [Other ''CopyPlugin'', Other ''BannerPlugin'']"

section \<open>Splitting and joining paths\<close>

lemma splitOn_not_Nil [simp]: "splitOn c s \<noteq> []"
  by (induction s) (auto split: list.splits)

lemma splitOn_no_sep: "c \<notin> set a \<Longrightarrow> splitOn c a = [a]"
  by (induction a) auto

lemma splitOn_append_sep: "c \<notin> set a \<Longrightarrow> splitOn c (a @ c # b) = a # splitOn c b"
  by (induction a) auto

lemma splitOn_segments_no_sep: "s \<in> set (splitOn c p) \<Longrightarrow> c \<notin> set s"
  by (induction p arbitrary: s) (auto split: list.splits if_splits)

lemma joinPath_Cons: "ss \<noteq> [] \<Longrightarrow> joinPath (s # ss) = s @ slash # joinPath ss"
  by (cases ss) auto

lemma joinPath_snoc: "ss \<noteq> [] \<Longrightarrow> joinPath (ss @ [s]) = joinPath ss @ slash # s"
  by (induction ss rule: joinPath.induct) auto

lemma joinPath_push: "joinPath ((x # t) # ts) = x # joinPath (t # ts)"
  by (cases ts) auto

lemma joinPath_splitOn: "joinPath (splitOn slash s) = s"
proof (induction s)
  case Nil
  show ?case by simp
next
  case (Cons x xs)
  show ?case
  proof (cases "x = slash")
    case True
    then show ?thesis using Cons by (simp add: joinPath_Cons)
  next
    case False
    obtain t ts where split: "splitOn slash xs = t # ts"
      by (cases "splitOn slash xs") auto
    with False Cons show ?thesis by (simp add: joinPath_push)
  qed
qed

lemma joinPath_splitPath: "joinPath (splitPath p) = p"
  by (simp add: splitPath_def joinPath_splitOn)

lemma splitPath_joinPath:
  "segs \<noteq> [] \<Longrightarrow> \<forall>s\<in>set segs. slash \<notin> set s \<Longrightarrow> splitPath (joinPath segs) = segs"
proof (induction segs)
  case Nil
  then show ?case by simp
next
  case (Cons a segs)
  show ?case
  proof (cases "segs = []")
    case True
    with Cons.prems show ?thesis by (simp add: splitPath_def splitOn_no_sep)
  next
    case False
    with Cons show ?thesis
      by (simp add: splitPath_def joinPath_Cons splitOn_append_sep)
  qed
qed

lemma hd_joinPath: "d \<noteq> [] \<Longrightarrow> hd (joinPath (d # rest)) = hd d"
  by (cases rest) auto

lemma joinPath_not_Nil: "d \<noteq> [] \<Longrightarrow> joinPath (d # rest) \<noteq> []"
  by (cases rest) auto

lemma last_joinPath_snoc: "s \<noteq> [] \<Longrightarrow> last (joinPath (ss @ [s])) = last s"
  by (cases "ss = []") (simp_all add: joinPath_snoc)

lemma joinPath_last_append: "joinPath (ds @ [a @ b]) = joinPath (ds @ [a]) @ b"
  by (cases "ds = []") (simp_all add: joinPath_snoc)

lemma splitPath_butlast_last: "splitPath p = directoryOf p @ [fileName p]"
  by (simp add: directoryOf_def fileName_def splitPath_def)

section \<open>The path functions on well-formed paths\<close>

text \<open>
  A segment that is not empty and does not begin with a dot is neither \<open>.\<close> nor
  \<open>..\<close>, so normalisation leaves a path made of such segments alone.
\<close>

lemma normalizeString_clean:
  "\<forall>s\<in>set ss. s \<noteq> [] \<and> s \<noteq> ''.'' \<and> s \<noteq> ''..'' \<Longrightarrow> normalizeString a acc ss = rev acc @ ss"
  by (induction ss arbitrary: acc) auto

lemma normalizeString_append:
  "normalizeString a acc (xs @ ys) = normalizeString a (rev (normalizeString a acc xs)) ys"
  by (induction a acc xs rule: normalizeString.induct) auto

lemma stripCommon_prefix: "stripCommon (xs @ ys) (xs @ zs) = stripCommon ys zs"
  by (induction xs) auto

lemma stripTrailingSlashes_id: "s \<noteq> [] \<Longrightarrow> last s \<noteq> slash \<Longrightarrow> stripTrailingSlashes s = s"
  by (cases s rule: rev_cases) (auto simp: stripTrailingSlashes_def)

lemma no_slash: "slash \<notin> set n \<Longrightarrow> x \<in> set (rev n) \<Longrightarrow> x \<noteq> slash"
  by auto

lemma dirname_single: "n \<noteq> [] \<Longrightarrow> slash \<notin> set n \<Longrightarrow> dirname n = ''.''"
proof -
  assume n: "n \<noteq> []" "slash \<notin> set n"
  then have "hd n \<noteq> slash" by (cases n) auto
  moreover have "slash \<notin> set (stripTrailingSlashes (tl n))"
    using n by (cases n) (auto simp: stripTrailingSlashes_def dest: set_dropWhileD)
  ultimately show ?thesis using n by (simp add: dirname_def Let_def)
qed

lemma dirname_append:
  assumes "a \<noteq> []" "hd a \<noteq> slash" "n \<noteq> []" "slash \<notin> set n"
  shows "dirname (a @ slash # n) = a"
proof -
  have last: "last (tl a @ slash # n) \<noteq> slash" using assms by (cases n rule: rev_cases) auto
  have body: "stripTrailingSlashes (tl (a @ slash # n)) = tl a @ slash # n"
    using assms last by (simp add: stripTrailingSlashes_id)
  have "dropWhile (\<lambda>c. c \<noteq> slash) (rev n @ slash # rev (tl a)) = slash # rev (tl a)"
    using dropWhile_append2[of "rev n" "\<lambda>c. c \<noteq> slash"] no_slash[OF assms(4)] by simp
  then show ?thesis using assms body by (simp add: dirname_def Let_def)
qed

lemma lastComponent_append:
  assumes "n \<noteq> []" "slash \<notin> set n"
  shows "lastComponent (q @ slash # n) = n"
proof -
  have "last (q @ slash # n) \<noteq> slash" using assms by (cases n rule: rev_cases) auto
  then have "stripTrailingSlashes (q @ slash # n) = q @ slash # n"
    by (simp add: stripTrailingSlashes_id)
  moreover have "takeWhile (\<lambda>c. c \<noteq> slash) (rev n @ slash # rev q) = rev n"
    using takeWhile_append2[of "rev n" "\<lambda>c. c \<noteq> slash"] no_slash[OF assms(2)] by simp
  ultimately show ?thesis by (simp add: lastComponent_def)
qed

lemma basename_stem:
  assumes "stem \<noteq> []" "slash \<notin> set stem" "ext \<noteq> []" "slash \<notin> set ext"
  shows "basename (q @ slash # stem @ ext) ext = stem"
proof -
  have "lastComponent (q @ slash # stem @ ext) = stem @ ext"
    using assms by (simp add: lastComponent_append)
  then show ?thesis using assms by (simp add: basename_def endsWith_def Let_def)
qed

lemma resolveSegments_relative:
  "\<not> isAbsolute p \<Longrightarrow>
   resolveSegments w [p] = normalizeString (\<not> isAbsolute w) [] (splitPath w @ splitPath p)"
  by (simp add: resolveSegments_def)

lemma relative_src:
  assumes "segs \<noteq> []" "\<forall>s\<in>set segs. s \<noteq> [] \<and> hd s \<noteq> CHR ''.'' \<and> slash \<notin> set s"
  shows "relative w ''src'' (joinPath (''src'' # segs)) = joinPath segs"
proof -
  let ?A = "\<not> isAbsolute w"
  let ?S = "normalizeString ?A [] (splitPath w)"
  have clean: "\<forall>s\<in>set (''src'' # segs). s \<noteq> [] \<and> s \<noteq> ''.'' \<and> s \<noteq> ''..''"
    using assms(2) by auto
  have split: "splitPath (joinPath (''src'' # segs)) = ''src'' # segs"
    using assms by (intro splitPath_joinPath) auto
  have rel: "\<not> isAbsolute (joinPath (''src'' # segs))"
    by (simp add: isAbsolute_def hd_joinPath)
  have "resolveSegments w [joinPath (''src'' # segs)] = ?S @ ''src'' # segs"
    using clean by (simp only: resolveSegments_relative[OF rel] split normalizeString_append
        normalizeString_clean rev_rev_ident)
  moreover have "resolveSegments w [''src''] = ?S @ [''src'']"
    by (simp add: resolveSegments_def isAbsolute_def splitPath_def normalizeString_append)
  moreover have "stripCommon (?S @ [''src'']) (?S @ ''src'' # segs) = ([], segs)"
    by (simp add: stripCommon_prefix)
  ultimately show ?thesis by (simp add: relative_def)
qed

lemma join_dot: 
  assumes "stem \<noteq> []" "hd stem \<noteq> CHR ''.''" "slash \<notin> set stem"
  shows "join [''.'', stem] = stem"
proof -
  have "splitPath (''.'' @ slash # stem) = [''.'', stem]"
    using assms by (simp add: splitPath_def splitOn_no_sep)
  moreover have "last stem \<noteq> slash" using assms by (cases stem rule: rev_cases) auto
  moreover have "stem \<noteq> ''.'' \<and> stem \<noteq> ''..''" using assms by auto
  ultimately show ?thesis using assms by (simp add: join_def normalizePath_def Let_def)
qed

lemma join_dirs:
  assumes "ds \<noteq> []" "\<forall>s\<in>set (ds @ [stem]). s \<noteq> [] \<and> hd s \<noteq> CHR ''.'' \<and> slash \<notin> set s"
  shows "join [joinPath ds, stem] = joinPath (ds @ [stem])"
proof -
  obtain d rest where ds: "ds = d # rest" using assms(1) by (cases ds) auto
  let ?p = "joinPath (ds @ [stem])"
  have ne: "joinPath ds \<noteq> []" "stem \<noteq> []" "?p \<noteq> []"
    using assms ds by (auto simp: joinPath_not_Nil)
  have p: "joinPath ds @ slash # stem = ?p" using assms by (simp add: joinPath_snoc)
  have hd: "hd ?p \<noteq> slash" using assms ds by (simp add: hd_joinPath) (cases d; auto)
  have last: "last ?p \<noteq> slash"
    using assms ne by (simp add: last_joinPath_snoc) (cases stem rule: rev_cases; auto)
  have split: "splitPath ?p = ds @ [stem]" using assms by (intro splitPath_joinPath) auto
  have clean: "\<forall>s\<in>set (ds @ [stem]). s \<noteq> [] \<and> s \<noteq> ''.'' \<and> s \<noteq> ''..''"
    using assms(2) by auto
  have "normalizeString True [] (ds @ [stem]) = ds @ [stem]"
    using normalizeString_clean[OF clean, of True "[]"] by simp
  then show ?thesis
    using ne hd last split by (simp add: join_def normalizePath_def Let_def p)
qed

lemma pathResolve_absolute_base:
  "isAbsolute d \<Longrightarrow> \<not> isAbsolute r \<Longrightarrow> pathResolve w [d, r] = pathResolve d [r]"
  by (simp add: pathResolve_def resolveSegments_def)

section \<open>The two patterns of the module\<close>

lemma globMatch_star: "globMatch [StarSuffix e] ns \<longleftrightarrow> (\<exists>n. ns = [n] \<and> partMatch (StarSuffix e) n)"
  by (cases ns) auto

lemma globMatch_globstar:
  "globMatch [GlobStar, StarSuffix e] ns \<longleftrightarrow>
     (\<exists>ds n. ns = ds @ [n] \<and> (\<forall>d\<in>set ds. partMatch GlobStar d) \<and> partMatch (StarSuffix e) n)"
proof (induction ns)
  case Nil
  show ?case by simp
next
  case (Cons n ns)
  show ?case (is "?L = ?R")
  proof
    assume ?L
    then consider "ns = []" "partMatch (StarSuffix e) n"
      | "partMatch GlobStar n" "globMatch [GlobStar, StarSuffix e] ns"
      by (auto simp: globMatch_star simp del: partMatch.simps)
    then show ?R
    proof cases
      case 1
      then show ?thesis by (intro exI[of _ "[]"] exI[of _ n]) simp
    next
      case 2
      with Cons.IH obtain ds m where "ns = ds @ [m]" "\<forall>d\<in>set ds. partMatch GlobStar d"
        "partMatch (StarSuffix e) m" by blast
      with 2 show ?thesis by (intro exI[of _ "n # ds"] exI[of _ m]) simp
    qed
  next
    assume ?R
    then obtain ds m where R: "n # ns = ds @ [m]" "\<forall>d\<in>set ds. partMatch GlobStar d"
      "partMatch (StarSuffix e) m" by blast
    show ?L
    proof (cases ds)
      case Nil
      with R show ?thesis by (simp del: partMatch.simps)
    next
      case (Cons d ds')
      with R have "ns = ds' @ [m]" "partMatch GlobStar n" "\<forall>d\<in>set ds'. partMatch GlobStar d" by auto
      with R(3) Cons.IH show ?thesis by (auto simp del: partMatch.simps)
    qed
  qed
qed

lemma scriptPattern:
  "map parsePart (splitPath (''src/scripts/*'' @ scriptExtension)) =
     [Literal ''src'', Literal ''scripts'', StarSuffix ''.ts'']"
  by (simp add: splitPath_def parsePart_def scriptExtension_def)

lemma documentPattern:
  "map parsePart (splitPath (''src/**/*'' @ documentExtension)) =
     [Literal ''src'', GlobStar, StarSuffix ''.html'']"
  by (simp add: splitPath_def parsePart_def documentExtension_def)

lemma match_literals_star:
  "globMatch [Literal a, Literal b, StarSuffix e] ns \<longleftrightarrow>
     (\<exists>n. ns = [a, b, n] \<and> partMatch (StarSuffix e) n)"
proof (cases ns)
  case Nil
  then show ?thesis by simp
next
  case (Cons x xs)
  then show ?thesis
    by (cases xs) (auto simp: globMatch_star simp del: partMatch.simps(2))
qed

lemma match_literal_globstar_star:
  "globMatch [Literal a, GlobStar, StarSuffix e] ns \<longleftrightarrow>
     (\<exists>ds n. ns = a # ds @ [n] \<and> list_all visible ds \<and> partMatch (StarSuffix e) n)"
proof (cases ns)
  case Nil
  then show ?thesis by simp
next
  case (Cons x xs)
  then show ?thesis
    by (auto simp: globMatch_globstar visible_def list_all_iff simp del: partMatch.simps(2))
qed

lemma three_segments: "ns \<noteq> [] \<Longrightarrow> (ns = [a, b, n]) = (butlast ns = [a, b] \<and> last ns = n)"
  by (cases ns rule: rev_cases) auto

lemma under_segments:
  "ns \<noteq> [] \<Longrightarrow> (\<exists>ds. ns = a # ds @ [n] \<and> P ds) = (take 1 (butlast ns) = [a] \<and> P (tl (butlast ns)) \<and> last ns = n)"
proof (cases ns rule: rev_cases)
  case Nil
  assume "ns \<noteq> []"
  with Nil show ?thesis by simp
next
  case (snoc ys y)
  show ?thesis
  proof (cases ys)
    case Nil
    with snoc show ?thesis by auto
  next
    case (Cons z zs)
    with snoc show ?thesis by auto
  qed
qed

lemma script_match_iff:
  "globMatch [Literal ''src'', Literal ''scripts'', StarSuffix ''.ts''] (splitPath p) \<longleftrightarrow> spec_scriptFile p"
proof -
  have ne: "splitPath p \<noteq> []" by (simp add: splitPath_def)
  show ?thesis
    unfolding match_literals_star three_segments[OF ne]
    by (auto simp: spec_scriptFile_def directoryOf_def fileName_def visible_def)
qed

lemma document_match_iff:
  "globMatch [Literal ''src'', GlobStar, StarSuffix ''.html''] (splitPath p) \<longleftrightarrow> spec_documentFile p"
proof -
  have ne: "splitPath p \<noteq> []" by (simp add: splitPath_def)
  have "globMatch [Literal ''src'', GlobStar, StarSuffix ''.html''] (splitPath p) \<longleftrightarrow>
        (\<exists>n. (\<exists>ds. splitPath p = ''src'' # ds @ [n] \<and> list_all visible ds) \<and> partMatch (StarSuffix ''.html'') n)"
    unfolding match_literal_globstar_star by blast
  then show ?thesis
    unfolding under_segments[OF ne]
    by (auto simp: spec_documentFile_def directoryOf_def fileName_def visible_def)
qed

lemma globSync_scripts:
  "globSync (''src/scripts/*'' @ scriptExtension) entries = filter spec_scriptFile entries"
  by (simp only: globSync_def scriptPattern script_match_iff)

lemma globSync_documents:
  "globSync (''src/**/*'' @ documentExtension) entries = filter spec_documentFile entries"
  by (simp only: globSync_def documentPattern document_match_iff)

section \<open>What discovery computes for a script and for a document\<close>

lemma endsWith_split: "endsWith ext n \<Longrightarrow> n = take (length n - length ext) n @ ext"
  by (metis append_take_drop_id endsWith_def)

lemma visible_iff: "visible s \<longleftrightarrow> s \<noteq> [] \<and> hd s \<noteq> CHR ''.''"
  by (auto simp: visible_def hidden_def)

lemma spec_documentFile_shape:
  assumes "spec_documentFile p"
  obtains ds stem where "p = joinPath (''src'' # ds @ [stem @ ''.html''])"
    and "\<forall>s\<in>set (ds @ [stem]). s \<noteq> [] \<and> hd s \<noteq> CHR ''.'' \<and> slash \<notin> set s"
proof -
  define n where "n = fileName p"
  define stem where "stem = take (length n - length ''.html'') n"
  define ds where "ds = tl (directoryOf p)"
  from assms have dir: "directoryOf p = ''src'' # ds"
    by (cases "directoryOf p") (auto simp: spec_documentFile_def ds_def)
  from assms have n: "n = stem @ ''.html''" "visible n"
    using endsWith_split[of "''.html''" n] by (auto simp: spec_documentFile_def n_def stem_def)
  have split: "splitPath p = ''src'' # ds @ [stem @ ''.html'']"
    using splitPath_butlast_last[of p] dir n by (simp add: n_def)
  then have p: "p = joinPath (''src'' # ds @ [stem @ ''.html''])"
    using joinPath_splitPath[of p] by simp
  have noslash: "slash \<notin> set s" if "s \<in> set (splitPath p)" for s
    using that splitOn_segments_no_sep[of s slash p] by (simp add: splitPath_def)
  have "\<forall>s\<in>set ds. visible s"
    using assms by (simp add: spec_documentFile_def ds_def list_all_iff)
  moreover have "stem \<noteq> []" "hd stem \<noteq> CHR ''.''"
    using n by (auto simp: visible_iff) (cases stem; simp)
  moreover have "slash \<notin> set stem" using noslash[of "stem @ ''.html''"] split by simp
  moreover have "\<forall>s\<in>set ds. slash \<notin> set s" using noslash split by simp
  ultimately have "\<forall>s\<in>set (ds @ [stem]). s \<noteq> [] \<and> hd s \<noteq> CHR ''.'' \<and> slash \<notin> set s"
    by (auto simp: visible_iff)
  with p show ?thesis by (rule that)
qed

lemma pageOf_document:
  assumes segs: "\<forall>s\<in>set (ds @ [stem]). s \<noteq> [] \<and> hd s \<noteq> CHR ''.'' \<and> slash \<notin> set s"
  shows "pageOf pr (joinPath (''src'' # ds @ [stem @ ''.html''])) =
           \<lparr> template = joinPath (''src'' # ds @ [stem @ ''.html'']),
             filename = joinPath (ds @ [stem @ ''.html'']),
             chunks = [replaceSlashes (joinPath (ds @ [stem]))] \<rparr>"
proof -
  let ?n = "stem @ ''.html''"
  let ?p = "joinPath (''src'' # ds @ [?n])"
  have stem: "stem \<noteq> []" "hd stem \<noteq> CHR ''.''" "slash \<notin> set stem" using segs by auto
  have n: "?n \<noteq> []" "slash \<notin> set ?n" "hd ?n \<noteq> CHR ''.''" using stem by auto
  have rel: "relative (cwd pr) ''src'' ?p = joinPath (ds @ [?n])"
    using segs n by (intro relative_src) auto
  have base: "basename ?p documentExtension = stem"
  proof -
    have "?p = joinPath (''src'' # ds) @ slash # stem @ ''.html''"
      using joinPath_snoc[of "''src'' # ds" ?n] by simp
    then show ?thesis using stem basename_stem[of stem "''.html''" "joinPath (''src'' # ds)"]
      by (simp add: documentExtension_def)
  qed
  have "join [dirname (joinPath (ds @ [?n])), stem] = joinPath (ds @ [stem])"
  proof (cases "ds = []")
    case True
    then show ?thesis using n stem by (simp add: dirname_single join_dot)
  next
    case False
    then obtain d rest where ds: "ds = d # rest" by (cases ds) auto
    have d: "d \<noteq> []" "slash \<notin> set d" using segs ds by auto
    then have "hd d \<noteq> slash" by (cases d) auto
    with d have "joinPath ds \<noteq> []" "hd (joinPath ds) \<noteq> slash"
      using ds by (simp_all add: joinPath_not_Nil hd_joinPath)
    then have "dirname (joinPath ds @ slash # ?n) = joinPath ds"
      using n dirname_append[of "joinPath ds" ?n] by simp
    then show ?thesis using False segs by (simp add: joinPath_snoc join_dirs)
  qed
  with rel base show ?thesis by (simp add: pageOf_def Let_def)
qed

lemma spec_scriptFile_shape:
  "spec_scriptFile p \<longleftrightarrow>
     (\<exists>k. p = ''src/scripts/'' @ k @ ''.ts'' \<and> k \<noteq> [] \<and> hd k \<noteq> CHR ''.'' \<and> slash \<notin> set k)"
proof
  assume s: "spec_scriptFile p"
  define n where "n = fileName p"
  define k where "k = take (length n - length ''.ts'') n"
  from s have n: "n = k @ ''.ts''" "visible n"
    using endsWith_split[of "''.ts''" n] by (auto simp: spec_scriptFile_def n_def k_def)
  from s have split: "splitPath p = [''src'', ''scripts'', k @ ''.ts'']"
    using splitPath_butlast_last[of p] n by (simp add: spec_scriptFile_def n_def)
  then have "p = ''src/scripts/'' @ k @ ''.ts''" using joinPath_splitPath[of p] by simp
  moreover have "k \<noteq> []" "hd k \<noteq> CHR ''.''"
    using n by (auto simp: visible_iff) (cases k; simp)
  moreover have "slash \<notin> set k"
    using splitOn_segments_no_sep[of "k @ ''.ts''" slash p] split by (simp add: splitPath_def)
  ultimately show "\<exists>k. p = ''src/scripts/'' @ k @ ''.ts'' \<and> k \<noteq> [] \<and> hd k \<noteq> CHR ''.'' \<and> slash \<notin> set k"
    by blast
next
  assume "\<exists>k. p = ''src/scripts/'' @ k @ ''.ts'' \<and> k \<noteq> [] \<and> hd k \<noteq> CHR ''.'' \<and> slash \<notin> set k"
  then obtain k where k: "p = ''src/scripts/'' @ k @ ''.ts''" "k \<noteq> []" "hd k \<noteq> CHR ''.''" "slash \<notin> set k"
    by blast
  have "p = joinPath [''src'', ''scripts'', k @ ''.ts'']" using k by simp
  moreover have "splitPath (joinPath [''src'', ''scripts'', k @ ''.ts'']) = [''src'', ''scripts'', k @ ''.ts'']"
    using k by (intro splitPath_joinPath) auto
  ultimately have "splitPath p = [''src'', ''scripts'', k @ ''.ts'']" by simp
  then show "spec_scriptFile p" using k
    by (cases k) (auto simp: spec_scriptFile_def directoryOf_def fileName_def visible_iff endsWith_def)
qed

lemma basename_script:
  "k \<noteq> [] \<Longrightarrow> slash \<notin> set k \<Longrightarrow> basename (''src/scripts/'' @ k @ ''.ts'') scriptExtension = k"
  using basename_stem[of k "''.ts''" "''src/scripts''"] by (simp add: scriptExtension_def)

lemma collectEntries_lookup:
  assumes "\<forall>p\<in>set ps. spec_scriptFile p"
  shows "collectEntries obj ps k =
           (if k \<noteq> ''__proto__'' \<and> ''src/scripts/'' @ k @ ''.ts'' \<in> set ps
            then Some (''./src/scripts/'' @ k @ ''.ts'') else obj k)"
  using assms
proof (induction ps arbitrary: obj)
  case Nil
  show ?case by simp
next
  case (Cons p ps)
  from Cons.prems obtain k0 where k0: "p = ''src/scripts/'' @ k0 @ ''.ts''" "k0 \<noteq> []" "slash \<notin> set k0"
    by (auto simp: spec_scriptFile_shape)
  have base: "basename p scriptExtension = k0" using basename_script[OF k0(2,3)] k0(1) by simp
  from Cons.prems have rest: "\<forall>p\<in>set ps. spec_scriptFile p" by simp
  show ?case
    unfolding collectEntries.simps base Cons.IH[OF rest]
    using k0(1) by (auto simp: assign_def)
qed

lemma dom_assign: "dom (assign obj k v) \<subseteq> insert k (dom obj)"
  by (auto simp: assign_def)

lemma collectEntries_size:
  "finite (dom obj) \<Longrightarrow>
   finite (dom (collectEntries obj ps)) \<and> card (dom (collectEntries obj ps)) \<le> card (dom obj) + length ps"
proof (induction ps arbitrary: obj)
  case Nil
  then show ?case by simp
next
  case (Cons p ps)
  let ?obj = "assign obj (basename p scriptExtension) (''./'' @ p)"
  have fin: "finite (dom ?obj)"
    using Cons.prems dom_assign[of obj] by (meson finite_insert finite_subset)
  have "card (dom ?obj) \<le> card (insert (basename p scriptExtension) (dom obj))"
    using Cons.prems dom_assign[of obj] by (intro card_mono) auto
  also have "\<dots> \<le> card (dom obj) + 1" using Cons.prems by (simp add: card_insert_if)
  finally have "card (dom ?obj) \<le> card (dom obj) + 1" .
  with Cons.IH[OF fin] show ?case by simp
qed

lemma htmlPages_generateParameters:
  "htmlPages (generateParameters m pr) = map (pageOf pr) (filter spec_documentFile (tree pr))"
  unfolding generateParameters_def globSync_documents by simp

lemma entry_generateParameters:
  "entry (generateParameters m pr) = collectEntries Map.empty (filter spec_scriptFile (tree pr))"
  unfolding generateParameters_def globSync_scripts by simp

lemma entry_lookup:
  "entry (generateParameters m pr) k =
     (if k \<noteq> ''__proto__'' \<and> visible k \<and> slash \<notin> set k \<and> ''src/scripts/'' @ k @ ''.ts'' \<in> set (tree pr)
      then Some (''./src/scripts/'' @ k @ ''.ts'') else None)"
proof -
  have "spec_scriptFile (''src/scripts/'' @ k @ ''.ts'') \<longleftrightarrow> visible k \<and> slash \<notin> set k"
    unfolding spec_scriptFile_shape visible_iff by auto
  then show ?thesis
    unfolding entry_generateParameters
    by (subst collectEntries_lookup) auto
qed

lemma matched_script_entry:
  assumes "spec_scriptFile p" and "p \<in> set (tree pr)" and "basename p scriptExtension \<noteq> ''__proto__''"
  shows "entry (generateParameters m pr) (basename p scriptExtension) = Some (''./'' @ p)"
proof -
  from assms(1) obtain k where k: "p = ''src/scripts/'' @ k @ ''.ts''" "k \<noteq> []" "hd k \<noteq> CHR ''.''"
    "slash \<notin> set k" by (auto simp: spec_scriptFile_shape)
  have base: "basename p scriptExtension = k" using basename_script[OF k(2,4)] k(1) by simp
  have "visible k" using k by (simp add: visible_iff)
  then show ?thesis
    unfolding base using assms(2,3) k(1,4) base by (simp add: entry_lookup)
qed

lemma pageOf_cwd: "cwd pr1 = cwd pr2 \<Longrightarrow> pageOf pr1 = pageOf pr2"
  by (rule ext) (simp add: pageOf_def)

lemma generateParameters_classified:
  "generateParameters m pr =
     \<lparr> entry = collectEntries Map.empty (filter spec_scriptFile (tree pr)),
       htmlPages = map (pageOf pr) (filter spec_documentFile (tree pr)),
       aliases = aliases (generateParameters m pr) \<rparr>"
  unfolding generateParameters_def globSync_scripts globSync_documents by simp

lemma aliases_tree: "cwd pr1 = cwd pr2 \<Longrightarrow> aliases (generateParameters m pr1) = aliases (generateParameters m pr2)"
  by (simp add: generateParameters_def)

lemma generateParameters_cong:
  assumes "cwd pr1 = cwd pr2"
      and "filter spec_scriptFile (tree pr1) = filter spec_scriptFile (tree pr2)"
      and "filter spec_documentFile (tree pr1) = filter spec_documentFile (tree pr2)"
  shows "generateParameters m pr1 = generateParameters m pr2"
  by (subst (1 2) generateParameters_classified)
     (simp add: assms pageOf_cwd[OF assms(1)] aliases_tree[OF assms(1)])

lemma filter_filter_implied: "(\<And>x. P x \<Longrightarrow> Q x) \<Longrightarrow> filter P (filter Q xs) = filter P xs"
  by (induction xs) auto

lemma spec_scriptFile_in_src: "spec_scriptFile p \<Longrightarrow> hd (splitPath p) = ''src''"
  using splitPath_butlast_last[of p] by (simp add: spec_scriptFile_def)

lemma spec_documentFile_in_src: "spec_documentFile p \<Longrightarrow> hd (splitPath p) = ''src''"
  using splitPath_butlast_last[of p] by (cases "directoryOf p") (auto simp: spec_documentFile_def)

text \<open>
  The definitions a concrete run of discovery unfolds.
\<close>

lemmas eval_defs = generateParameters_def globSync_def splitPath_def parsePart_def hidden_def endsWith_def
  pageOf_def relative_def resolveSegments_def isAbsolute_def dirname_def stripTrailingSlashes_def
  basename_def lastComponent_def join_def normalizePath_def replaceSlashes_def assign_def
  scriptExtension_def documentExtension_def Let_def loadModule_def pathResolve_def

section \<open>The claims\<close>

subsection \<open>C1: where the extra plugins stand\<close>

text \<open>
  C1 says the caller's extra plugins are appended after the generated ones and so
  occupy the trailing positions of the plugin list. The source spreads
  \<open>...extraPlugins\<close> first: with two extra plugins and one page, the last two plugins
  are the page's HtmlWebpackPlugin and the SubresourceIntegrityPlugin, not the extras.
\<close>

theorem extraPlugins_not_trailing:
  "drop (length (plugins (makeConfigWithParameters (loadModule exampleProcess) exampleProcess
                    exampleParameters exampleExtraPlugins)) - length exampleExtraPlugins)
     (plugins (makeConfigWithParameters (loadModule exampleProcess) exampleProcess
        exampleParameters exampleExtraPlugins))
   = [HtmlWebpackPlugin \<lparr> template = ''src/index.html'', filename = ''index.html'', chunks = [''index''] \<rparr>,
      SubresourceIntegrityPlugin]
   \<and> [HtmlWebpackPlugin \<lparr> template = ''src/index.html'', filename = ''index.html'', chunks = [''index''] \<rparr>,
      SubresourceIntegrityPlugin] \<noteq> exampleExtraPlugins"
  by (simp add: makeConfigWithParameters_def exampleParameters_def exampleExtraPlugins_def)

text \<open>
  C1, amended: for every parameters value and every list of extra plugins, the plugin
  list is the extra plugins in their given order, followed by ProvidePlugin,
  LimitChunkCountPlugin, RemoveEmptyScriptsPlugin, MiniCssExtractPlugin, one
  HtmlWebpackPlugin per page in page order, and SubresourceIntegrityPlugin: the
  caller's plugins occupy the leading positions.
\<close>

theorem extraPlugins_lead_plugin_list:
  "plugins (makeConfigWithParameters m pr parameters extraPlugins) =
     extraPlugins @
     [ProvidePlugin [(''lit'', ''lit''), (''litDecorators'', ''lit/decorators.js''),
        (''altshiftBox'', ''@altshiftab/web_components/box''),
        (''altshiftSwitch'', ''@altshiftab/web_components/switch'')],
      LimitChunkCountPlugin 1, RemoveEmptyScriptsPlugin,
      MiniCssExtractPlugin ''styles/[name]-[contenthash].css''] @
     map HtmlWebpackPlugin (htmlPages parameters) @ [SubresourceIntegrityPlugin]
   \<and> take (length extraPlugins) (plugins (makeConfigWithParameters m pr parameters extraPlugins)) = extraPlugins"
  by (simp add: makeConfigWithParameters_def)

subsection \<open>C2: the chunk name of a page\<close>

text \<open>
  C2 says the chunk name of a document is its path relative to \<open>src\<close> with the
  separators replaced by underscores. The source passes the relative path through
  \<open>dirname\<close> and \<open>basename(documentFilePath, documentExtension)\<close>, which drops the
  extension: for \<open>src/pages/about.html\<close> the chunk is \<open>pages_about\<close>, while the
  relative path with underscores is \<open>pages_about.html\<close>.
\<close>

theorem chunk_is_not_relative_path:
  "htmlPages (generateParameters (loadModule exampleProcess) exampleProcess) =
     [\<lparr> template = ''src/index.html'', filename = ''index.html'', chunks = [''index''] \<rparr>,
      \<lparr> template = ''src/pages/about.html'', filename = ''pages/about.html'', chunks = [''pages_about''] \<rparr>]
   \<and> chunks (htmlPages (generateParameters (loadModule exampleProcess) exampleProcess) ! 1)
       \<noteq> [replaceSlashes (filename (htmlPages (generateParameters (loadModule exampleProcess) exampleProcess) ! 1))]"
  by (simp add: eval_defs exampleProcess_def)

text \<open>
  C2, amended: every page descriptor produced by \<open>generateParameters\<close> has as its
  filename the document's path relative to \<open>src\<close> (the template is \<open>src/\<close> followed
  by it), that path ends with \<open>.html\<close>, and the single chunk name is that path without
  the \<open>.html\<close> extension, with every separator replaced by an underscore.
\<close>

theorem chunk_is_relative_path_without_extension:
  assumes "page \<in> set (htmlPages (generateParameters m pr))"
  shows "template page = ''src/'' @ filename page \<and>
         endsWith documentExtension (filename page) \<and>
         chunks page =
           [replaceSlashes (take (length (filename page) - length documentExtension) (filename page))]"
proof -
  from assms obtain p where p: "spec_documentFile p" "page = pageOf pr p"
    by (auto simp: htmlPages_generateParameters)
  from p(1) obtain ds stem where shape: "p = joinPath (''src'' # ds @ [stem @ ''.html''])"
    and segs: "\<forall>s\<in>set (ds @ [stem]). s \<noteq> [] \<and> hd s \<noteq> CHR ''.'' \<and> slash \<notin> set s"
    by (rule spec_documentFile_shape)
  let ?rel = "joinPath (ds @ [stem @ ''.html''])"
  have page: "template page = p" "filename page = ?rel" "chunks page = [replaceSlashes (joinPath (ds @ [stem]))]"
    using pageOf_document[OF segs, of pr] p(2) shape by simp_all
  have rel: "?rel = joinPath (ds @ [stem]) @ ''.html''" by (rule joinPath_last_append)
  have "p = ''src/'' @ ?rel" using shape joinPath_Cons[of "ds @ [stem @ ''.html'']" "''src''"] by simp
  then show ?thesis using page rel by (simp add: documentExtension_def endsWith_def)
qed

theorem chunk_is_relative_path_without_extension_witness:
  "\<lparr> template = ''src/pages/about.html'', filename = ''pages/about.html'', chunks = [''pages_about''] \<rparr>
     \<in> set (htmlPages (generateParameters (loadModule exampleProcess) exampleProcess)) \<and>
   [''pages_about''] = [replaceSlashes (take (length ''pages/about.html'' - length documentExtension) ''pages/about.html'')]"
proof -
  have "\<lparr> template = ''src/pages/about.html'', filename = ''pages/about.html'', chunks = [''pages_about''] \<rparr>
     \<in> set (htmlPages (generateParameters (loadModule exampleProcess) exampleProcess))"
    by (simp add: eval_defs exampleProcess_def)
  from this chunk_is_relative_path_without_extension[OF this] show ?thesis by simp
qed

subsection \<open>C3: how many entries and pages\<close>

text \<open>
  C3 says that a tree with M document files gives exactly M page descriptors. Counted
  by extension and location, the tree of \<open>hiddenProcess\<close> has two document files
  below \<open>src\<close>; the wildcard of \<open>src/**/*.html\<close> does not match the name
  \<open>.hidden.html\<close>, and discovery returns one page descriptor.
\<close>

theorem hidden_document_gives_no_page:
  "filter spec_htmlBelowSrc (tree hiddenProcess) = [''src/index.html'', ''src/.hidden.html''] \<and>
   htmlPages (generateParameters (loadModule hiddenProcess) hiddenProcess) =
     [\<lparr> template = ''src/index.html'', filename = ''index.html'', chunks = [''index''] \<rparr>] \<and>
   length (htmlPages (generateParameters (loadModule hiddenProcess) hiddenProcess))
     \<noteq> length (filter spec_htmlBelowSrc (tree hiddenProcess))"
  by (simp add: eval_defs hiddenProcess_def spec_htmlBelowSrc_def directoryOf_def fileName_def)

text \<open>
  C3, amended: the scripts and documents that count are the entries the two patterns
  match: N entries directly in \<open>src/scripts\<close> with a visible name ending in
  \<open>.ts\<close>, and M entries below \<open>src\<close>, through visible directories, with a visible
  name ending in \<open>.html\<close>. For every file tree the entry mapping has at most N keys,
  it maps the basename of every such script to \<open>./\<close> followed by the script's path
  (nothing is said of a script whose basename is \<open>__proto__\<close>), and the list of pages
  has exactly M descriptors.
\<close>

theorem discovery_sizes:
  "finite (dom (entry (generateParameters m pr))) \<and>
   card (dom (entry (generateParameters m pr))) \<le> length (filter spec_scriptFile (tree pr)) \<and>
   length (htmlPages (generateParameters m pr)) = length (filter spec_documentFile (tree pr)) \<and>
   (\<forall>p\<in>set (filter spec_scriptFile (tree pr)).
      basename p scriptExtension \<noteq> ''__proto__'' \<longrightarrow>
      entry (generateParameters m pr) (basename p scriptExtension) = Some (''./'' @ p))"
proof (intro conjI ballI impI)
  show "finite (dom (entry (generateParameters m pr)))"
    and "card (dom (entry (generateParameters m pr))) \<le> length (filter spec_scriptFile (tree pr))"
    using collectEntries_size[of Map.empty "filter spec_scriptFile (tree pr)"]
    by (simp_all add: entry_generateParameters)
  show "length (htmlPages (generateParameters m pr)) = length (filter spec_documentFile (tree pr))"
    by (simp add: htmlPages_generateParameters)
next
  fix p
  assume "p \<in> set (filter spec_scriptFile (tree pr))" and "basename p scriptExtension \<noteq> ''__proto__''"
  then show "entry (generateParameters m pr) (basename p scriptExtension) = Some (''./'' @ p)"
    by (simp add: matched_script_entry)
qed

theorem discovery_sizes_witness:
  "filter spec_scriptFile (tree exampleProcess) = [''src/scripts/main.ts''] \<and>
   card (dom (entry (generateParameters (loadModule exampleProcess) exampleProcess))) \<le> 1 \<and>
   length (htmlPages (generateParameters (loadModule exampleProcess) exampleProcess)) = 2 \<and>
   entry (generateParameters (loadModule exampleProcess) exampleProcess) ''main'' = Some ''./src/scripts/main.ts''"
proof -
  note s = discovery_sizes[of "loadModule exampleProcess" exampleProcess]
  have scripts: "filter spec_scriptFile (tree exampleProcess) = [''src/scripts/main.ts'']"
    unfolding globSync_scripts[symmetric] by (simp add: eval_defs exampleProcess_def)
  have docs: "filter spec_documentFile (tree exampleProcess) = [''src/index.html'', ''src/pages/about.html'']"
    unfolding globSync_documents[symmetric] by (simp add: eval_defs exampleProcess_def)
  have base: "basename ''src/scripts/main.ts'' scriptExtension = ''main''"
    by (simp add: eval_defs)
  have "card (dom (entry (generateParameters (loadModule exampleProcess) exampleProcess))) \<le> 1"
    using s[THEN conjunct2, THEN conjunct1] scripts by simp
  moreover have "length (htmlPages (generateParameters (loadModule exampleProcess) exampleProcess)) = 2"
    using s[THEN conjunct2, THEN conjunct2, THEN conjunct1] docs by simp
  moreover have "entry (generateParameters (loadModule exampleProcess) exampleProcess) ''main'' = Some ''./src/scripts/main.ts''"
    using s[THEN conjunct2, THEN conjunct2, THEN conjunct2, THEN bspec, of "''src/scripts/main.ts''"]
      scripts base by simp
  ultimately show ?thesis using scripts by blast
qed

subsection \<open>C4: assembly from empty parameters\<close>



subsection \<open>C5: which files contribute\<close>

text \<open>
  C5 says a file contributes an entry exactly when it has the extension \<open>.ts\<close> and
  lies under \<open>src/scripts\<close>. The pattern \<open>src/scripts/*.ts\<close> has no \<open>**\<close>: the
  file \<open>src/scripts/admin/panel.ts\<close> has the extension and lies under
  \<open>src/scripts\<close>, and contributes nothing.
\<close>

theorem nested_script_contributes_nothing:
  "''src/scripts/admin/panel.ts'' \<in> set (tree exampleProcess) \<and>
   endsWith ''.ts'' (fileName ''src/scripts/admin/panel.ts'') \<and>
   take 2 (directoryOf ''src/scripts/admin/panel.ts'') = [''src'', ''scripts''] \<and>
   entry (generateParameters (loadModule exampleProcess) exampleProcess) =
     [''main'' \<mapsto> ''./src/scripts/main.ts''] \<and>
   ''./src/scripts/admin/panel.ts'' \<notin> ran (entry (generateParameters (loadModule exampleProcess) exampleProcess))"
  by (simp add: eval_defs exampleProcess_def fileName_def directoryOf_def)

text \<open>
  C5, amended: a file contributes an entry exactly when it lies directly in
  \<open>src/scripts\<close> and its name is a visible name ending in \<open>.ts\<close>: for every key
  \<open>k\<close> other than \<open>__proto__\<close> (of which nothing is said), the entry mapping maps
  \<open>k\<close> to \<open>./src/scripts/k.ts\<close> exactly when \<open>k\<close> is visible, contains no
  separator and \<open>src/scripts/k.ts\<close> is in the tree. A file contributes a page
  descriptor exactly when it lies under \<open>src\<close> at any depth, through visible
  directories, and its name is a visible name ending in \<open>.html\<close>. Files with any
  other extension contribute nothing: removing them from the tree leaves the
  parameters unchanged.
\<close>

theorem classification_of_files:
  "(\<forall>k. k \<noteq> ''__proto__'' \<longrightarrow>
      entry (generateParameters m pr) k =
        (if visible k \<and> slash \<notin> set k \<and> ''src/scripts/'' @ k @ ''.ts'' \<in> set (tree pr)
         then Some (''./src/scripts/'' @ k @ ''.ts'') else None)) \<and>
   map template (htmlPages (generateParameters m pr)) = filter spec_documentFile (tree pr) \<and>
   generateParameters m
     (pr\<lparr>tree := filter (\<lambda>p. endsWith ''.ts'' (fileName p) \<or> endsWith ''.html'' (fileName p)) (tree pr)\<rparr>)
     = generateParameters m pr"
proof (intro conjI allI impI)
  fix k :: string
  assume "k \<noteq> ''__proto__''"
  then show "entry (generateParameters m pr) k =
        (if visible k \<and> slash \<notin> set k \<and> ''src/scripts/'' @ k @ ''.ts'' \<in> set (tree pr)
         then Some (''./src/scripts/'' @ k @ ''.ts'') else None)"
    by (simp add: entry_lookup)
next
  show "map template (htmlPages (generateParameters m pr)) = filter spec_documentFile (tree pr)"
    by (simp add: htmlPages_generateParameters pageOf_def Let_def comp_def)
  let ?ext = "\<lambda>p. endsWith ''.ts'' (fileName p) \<or> endsWith ''.html'' (fileName p)"
  show "generateParameters m (pr\<lparr>tree := filter ?ext (tree pr)\<rparr>) = generateParameters m pr"
  proof (rule generateParameters_cong)
    show "cwd (pr\<lparr>tree := filter ?ext (tree pr)\<rparr>) = cwd pr" by simp
    show "filter spec_scriptFile (tree (pr\<lparr>tree := filter ?ext (tree pr)\<rparr>)) = filter spec_scriptFile (tree pr)"
      using filter_filter_implied[of spec_scriptFile ?ext "tree pr"] by (simp add: spec_scriptFile_def)
    show "filter spec_documentFile (tree (pr\<lparr>tree := filter ?ext (tree pr)\<rparr>)) = filter spec_documentFile (tree pr)"
      using filter_filter_implied[of spec_documentFile ?ext "tree pr"] by (simp add: spec_documentFile_def)
  qed
qed

theorem classification_of_files_witness:
  "entry (generateParameters (loadModule exampleProcess) exampleProcess) ''main'' = Some ''./src/scripts/main.ts'' \<and>
   entry (generateParameters (loadModule exampleProcess) exampleProcess) ''panel'' = None \<and>
   map template (htmlPages (generateParameters (loadModule exampleProcess) exampleProcess)) =
     [''src/index.html'', ''src/pages/about.html'']"
proof -
  note c = classification_of_files[of "loadModule exampleProcess" exampleProcess]
  have docs: "filter spec_documentFile (tree exampleProcess) = [''src/index.html'', ''src/pages/about.html'']"
    unfolding globSync_documents[symmetric] by (simp add: eval_defs exampleProcess_def)
  have "entry (generateParameters (loadModule exampleProcess) exampleProcess) ''main'' = Some ''./src/scripts/main.ts''"
    using c[THEN conjunct1, THEN spec, of "''main''"]
    by (simp add: exampleProcess_def visible_def hidden_def)
  moreover have "entry (generateParameters (loadModule exampleProcess) exampleProcess) ''panel'' = None"
    using c[THEN conjunct1, THEN spec, of "''panel''"]
    by (simp add: exampleProcess_def visible_def hidden_def)
  moreover have "map template (htmlPages (generateParameters (loadModule exampleProcess) exampleProcess)) =
     [''src/index.html'', ''src/pages/about.html'']"
    using c[THEN conjunct2, THEN conjunct1] docs by simp
  ultimately show ?thesis by blast
qed

subsection \<open>C6: nothing to discover\<close>

text \<open>
  C6: \<open>generateParameters\<close> has no failing branch and always returns parameters; when
  no script and no document matches, the entry mapping is empty, the list of pages is
  empty, and the alias table still has its four keys.
\<close>

theorem no_matches_gives_empty_parameters:
  assumes "globSync (''src/scripts/*'' @ scriptExtension) (tree pr) = []"
      and "globSync (''src/**/*'' @ documentExtension) (tree pr) = []"
  shows "entry (generateParameters m pr) = Map.empty \<and>
         htmlPages (generateParameters m pr) = [] \<and>
         dom (aliases (generateParameters m pr)) =
           {''lit'', ''litDecorators'', ''altshiftBox'', ''altshiftSwitch''}"
  using assms by (auto simp: generateParameters_def)

theorem no_matches_gives_empty_parameters_witness:
  "entry (generateParameters (loadModule emptyProcess) emptyProcess) = Map.empty \<and>
   htmlPages (generateParameters (loadModule emptyProcess) emptyProcess) = [] \<and>
   dom (aliases (generateParameters (loadModule emptyProcess) emptyProcess)) =
      {''lit'', ''litDecorators'', ''altshiftBox'', ''altshiftSwitch''}"
proof -
  have "globSync (''src/scripts/*'' @ scriptExtension) (tree emptyProcess) = []"
   and "globSync (''src/**/*'' @ documentExtension) (tree emptyProcess) = []"
    by (simp_all add: eval_defs emptyProcess_def)
  from no_matches_gives_empty_parameters[OF this] show ?thesis .
qed

subsection \<open>C7: the alias table\<close>

text \<open>
  C7 says \<open>altshiftBox\<close> and \<open>altshiftSwitch\<close> are resolved against the working
  directory at the time \<open>generateParameters\<close> runs. The source resolves them against
  \<open>__dirname\<close>, which the module sets from \<open>cwd()\<close> once, when it is loaded: for a
  module loaded in \<open>/home/dev\<close> and \<open>generateParameters\<close> called after the process
  has moved to \<open>/home/dev/site\<close>, the alias is below \<open>/home/dev\<close>.
\<close>

theorem aliases_not_resolved_against_current_directory:
  "cwd exampleProcess = ''/home/dev/site'' \<and>
   aliases (generateParameters (loadModule launchProcess) exampleProcess) ''altshiftBox'' =
     Some ''/home/dev/node_modules/@altshiftab/web_components/dist/box.js'' \<and>
   aliases (generateParameters (loadModule launchProcess) exampleProcess) ''altshiftBox'' \<noteq>
     Some (pathResolve (cwd exampleProcess) [''node_modules/@altshiftab/web_components/dist/box.js''])"
  by (simp add: eval_defs launchProcess_def exampleProcess_def)

text \<open>
  C7, amended: for every file tree and every working directory at the time of the
  call, the alias table is the fixed four-key mapping: \<open>lit\<close> and
  \<open>litDecorators\<close> map to fixed module names, \<open>altshiftBox\<close> and \<open>altshiftSwitch\<close>
  to paths resolved against the working directory the process had when the module was
  loaded (an absolute path).
\<close>

theorem aliases_resolved_against_load_time_directory:
  assumes "isAbsolute (cwd launch)"
  shows "aliases (generateParameters (loadModule launch) pr) =
           [''lit'' \<mapsto> ''lit'',
            ''litDecorators'' \<mapsto> ''lit/decorators.js'',
            ''altshiftBox'' \<mapsto>
               pathResolve (cwd launch) [''node_modules/@altshiftab/web_components/dist/box.js''],
            ''altshiftSwitch'' \<mapsto>
               pathResolve (cwd launch) [''node_modules/@altshiftab/web_components/dist/switch.js'']] \<and>
         dom (aliases (generateParameters (loadModule launch) pr)) =
           {''lit'', ''litDecorators'', ''altshiftBox'', ''altshiftSwitch''}"
proof -
  have "pathResolve (cwd pr) [cwd launch, ''node_modules/@altshiftab/web_components/dist/box.js''] =
        pathResolve (cwd launch) [''node_modules/@altshiftab/web_components/dist/box.js'']"
    using assms by (intro pathResolve_absolute_base) (simp_all add: isAbsolute_def)
  moreover have "pathResolve (cwd pr) [cwd launch, ''node_modules/@altshiftab/web_components/dist/switch.js''] =
        pathResolve (cwd launch) [''node_modules/@altshiftab/web_components/dist/switch.js'']"
    using assms by (intro pathResolve_absolute_base) (simp_all add: isAbsolute_def)
  ultimately show ?thesis
    unfolding generateParameters_def loadModule_def by auto
qed

theorem aliases_resolved_against_load_time_directory_witness:
  "aliases (generateParameters (loadModule launchProcess) exampleProcess) =
     [''lit'' \<mapsto> ''lit'',
      ''litDecorators'' \<mapsto> ''lit/decorators.js'',
      ''altshiftBox'' \<mapsto> ''/home/dev/node_modules/@altshiftab/web_components/dist/box.js'',
      ''altshiftSwitch'' \<mapsto> ''/home/dev/node_modules/@altshiftab/web_components/dist/switch.js'']"
proof -
  have abs: "isAbsolute (cwd launchProcess)" by (simp add: isAbsolute_def launchProcess_def)
  have "pathResolve (cwd launchProcess) [''node_modules/@altshiftab/web_components/dist/box.js'']
          = ''/home/dev/node_modules/@altshiftab/web_components/dist/box.js''"
       "pathResolve (cwd launchProcess) [''node_modules/@altshiftab/web_components/dist/switch.js'']
          = ''/home/dev/node_modules/@altshiftab/web_components/dist/switch.js''"
    by (simp_all add: eval_defs launchProcess_def)
  with aliases_resolved_against_load_time_directory[OF abs, of exampleProcess] show ?thesis by simp
qed

subsection \<open>C8: discovery is a function of the source tree\<close>

text \<open>
  C8: two runs of \<open>generateParameters\<close> of the same module, with the same working
  directory and the same entries below \<open>src\<close>, return equal parameters, whatever
  else differs in the file tree.
\<close>

theorem discovery_deterministic:
  assumes "cwd pr1 = cwd pr2" and "sourceTree pr1 = sourceTree pr2"
  shows "generateParameters m pr1 = generateParameters m pr2"
proof (rule generateParameters_cong[OF assms(1)])
  have "filter spec_scriptFile (tree pr) = filter spec_scriptFile (sourceTree pr)" for pr
    unfolding sourceTree_def by (rule filter_filter_implied[symmetric]) (rule spec_scriptFile_in_src)
  then show "filter spec_scriptFile (tree pr1) = filter spec_scriptFile (tree pr2)"
    using assms(2) by simp
  have "filter spec_documentFile (tree pr) = filter spec_documentFile (sourceTree pr)" for pr
    unfolding sourceTree_def by (rule filter_filter_implied[symmetric]) (rule spec_documentFile_in_src)
  then show "filter spec_documentFile (tree pr1) = filter spec_documentFile (tree pr2)"
    using assms(2) by simp
qed

theorem discovery_deterministic_witness:
  "tree exampleProcess \<noteq> tree otherProcess \<and>
   generateParameters (loadModule launchProcess) exampleProcess =
   generateParameters (loadModule launchProcess) otherProcess"
proof -
  have "cwd exampleProcess = cwd otherProcess" and "sourceTree exampleProcess = sourceTree otherProcess"
    by (simp_all add: exampleProcess_def otherProcess_def sourceTree_def splitPath_def)
  from discovery_deterministic[OF this] show ?thesis
    by (simp add: exampleProcess_def otherProcess_def)
qed

subsection \<open>C9: one chunk per page\<close>

text \<open>
  C9: every page descriptor \<open>generateParameters\<close> produces has exactly one chunk
  name.
\<close>

theorem one_chunk_per_page:
  "\<forall>page\<in>set (htmlPages (generateParameters m pr)). length (chunks page) = 1"
  by (auto simp: generateParameters_def pageOf_def Let_def)

theorem one_chunk_per_page_witness:
  "length (htmlPages (generateParameters (loadModule exampleProcess) exampleProcess)) = 2 \<and>
   map (\<lambda>page. length (chunks page)) (htmlPages (generateParameters (loadModule exampleProcess) exampleProcess)) = [1, 1]"
proof -
  have pages: "htmlPages (generateParameters (loadModule exampleProcess) exampleProcess) =
     [\<lparr> template = ''src/index.html'', filename = ''index.html'', chunks = [''index''] \<rparr>,
      \<lparr> template = ''src/pages/about.html'', filename = ''pages/about.html'', chunks = [''pages_about''] \<rparr>]"
    by (simp add: eval_defs exampleProcess_def)
  from one_chunk_per_page[of "loadModule exampleProcess" exampleProcess] show ?thesis
    unfolding pages by simp
qed

subsection \<open>C10: the caller's data pass through\<close>

text \<open>
  C10: for every parameters value and every list of extra plugins, the entry of the
  configuration is the entry mapping of the parameters and the alias of its resolve
  options is their alias table.
\<close>

theorem parameters_pass_through:
  "config_entry (makeConfigWithParameters m pr parameters extraPlugins) = entry parameters \<and>
   resolve_alias (resolve (makeConfigWithParameters m pr parameters extraPlugins)) = aliases parameters"
  by (simp add: makeConfigWithParameters_def)

end
